theory Spec2Isabelle
  imports Complex_Main
begin

section \<open>Character classification of Python 2 byte strings\<close>

text \<open>
  The notebook runs on a Python 2.7 kernel and feeds \<open>numerify\<close> the result of
  \<open>f.read()\<close>, a byte string: a \<open>string\<close> here is a list of 8-bit characters.
  \<open>str.isalpha\<close>, \<open>str.isspace\<close> and \<open>str.lower\<close> are the ones of the default
  "C" locale, in which only the ASCII letters are alphabetic, only the six ASCII
  white-space bytes are spaces, and only \<open>A\<close>..\<open>Z\<close> change under \<open>lower\<close>.
\<close>

definition py_ord :: "char \<Rightarrow> int" where
  "py_ord c = of_char c"

definition isupper :: "char \<Rightarrow> bool" where
  "isupper c \<longleftrightarrow> 65 \<le> py_ord c \<and> py_ord c \<le> 90"

definition isalpha :: "char \<Rightarrow> bool" where
  "isalpha c \<longleftrightarrow> isupper c \<or> (97 \<le> py_ord c \<and> py_ord c \<le> 122)"

definition isspace :: "char \<Rightarrow> bool" where
  "isspace c \<longleftrightarrow> py_ord c = 32 \<or> (9 \<le> py_ord c \<and> py_ord c \<le> 13)"

definition lower :: "char \<Rightarrow> char" where
  "lower c = (if isupper c then char_of (py_ord c + 32) else c)"

section \<open>numerify\<close>

text \<open>
  \<open>[max(1+ord(c.lower()) - ord('a'), 0) for c in string if c.isalpha() or c.isspace()]\<close>
\<close>

definition numerify :: "string \<Rightarrow> int list" where
  "numerify string =
     [max (1 + py_ord (lower c) - py_ord CHR ''a'') 0. c \<leftarrow> string, isalpha c \<or> isspace c]"

section \<open>numpy values\<close>

text \<open>
  A \<open>float64\<close> is idealised as a real number; the three values a division by zero
  or a logarithm of a non-positive number produce in numpy are kept apart.
\<close>

datatype npfloat = Fin real | PosInf | NegInf | NaN

fun np_add :: "npfloat \<Rightarrow> npfloat \<Rightarrow> npfloat" where
  "np_add (Fin a) (Fin b) = Fin (a + b)"
| "np_add NaN _ = NaN"
| "np_add _ NaN = NaN"
| "np_add PosInf NegInf = NaN"
| "np_add NegInf PosInf = NaN"
| "np_add PosInf _ = PosInf"
| "np_add _ PosInf = PosInf"
| "np_add NegInf _ = NegInf"
| "np_add _ NegInf = NegInf"

definition np_div :: "real \<Rightarrow> real \<Rightarrow> npfloat" where
  "np_div a b =
     (if b \<noteq> 0 then Fin (a / b)
      else if a = 0 then NaN
      else if 0 < a then PosInf
      else NegInf)"

definition np_log :: "real \<Rightarrow> npfloat" where
  "np_log a = (if 0 < a then Fin (ln a) else if a = 0 then NegInf else NaN)"

text \<open>\<open>u < r\<close> for a finite \<open>u\<close>: every comparison with \<open>nan\<close> is false.\<close>

fun np_less :: "real \<Rightarrow> npfloat \<Rightarrow> bool" where
  "np_less u (Fin a) = (u < a)"
| "np_less u PosInf = True"
| "np_less u NegInf = False"
| "np_less u NaN = False"

section \<open>The 27 by 27 arrays\<close>

text \<open>
  An array of shape \<open>(27, 27)\<close> is given by its entries at \<open>i, j < 27\<close>. Indexing
  it with an integer outside \<open>-27 \<le> i < 27\<close> raises \<open>IndexError\<close>; a negative
  index inside that range counts from the end.
\<close>

type_synonym matrix = "nat \<Rightarrow> nat \<Rightarrow> real"

datatype error = IndexError

definition np_index :: "int \<Rightarrow> error + nat" where
  "np_index i =
     (if 0 \<le> i \<and> i < 27 then Inr (nat i)
      else if - 27 \<le> i \<and> i < 0 then Inr (nat (i + 27))
      else Inl IndexError)"

definition np_zeros :: matrix where
  "np_zeros = (\<lambda>i j. 0)"

definition transpose_m :: "matrix \<Rightarrow> matrix" where
  "transpose_m m = (\<lambda>i j. m j i)"

text \<open>\<open>np.sum(m, axis=0)\<close>: entry \<open>j\<close> adds up column \<open>j\<close>.\<close>

definition np_sum_axis0 :: "matrix \<Rightarrow> nat \<Rightarrow> real" where
  "np_sum_axis0 m j = (\<Sum>i\<leftarrow>[0..<27]. m i j)"

text \<open>The sum of row \<open>i\<close>, the quantity the specification speaks about.\<close>

definition row_sum :: "matrix \<Rightarrow> nat \<Rightarrow> real" where
  "row_sum m i = (\<Sum>j\<leftarrow>[0..<27]. m i j)"

section \<open>learn_bigram\<close>

text \<open>\<open>zip(coded[:-1], coded[1:])\<close>\<close>

definition adjacent_pairs :: "'a list \<Rightarrow> ('a \<times> 'a) list" where
  "adjacent_pairs coded = zip (butlast coded) (tl coded)"

text \<open>The loop \<open>for prev, this in ...: joint[prev, this] += 1\<close>.\<close>

fun count_pairs :: "(int \<times> int) list \<Rightarrow> matrix \<Rightarrow> error + matrix" where
  "count_pairs [] joint = Inr joint"
| "count_pairs ((prev, this) # ps) joint =
     (case np_index prev of
        Inl e \<Rightarrow> Inl e
      | Inr i \<Rightarrow>
          (case np_index this of
             Inl e \<Rightarrow> Inl e
           | Inr j \<Rightarrow> count_pairs ps (joint(i := (joint i)(j := joint i j + 1)))))"

definition epsilon :: real where
  "epsilon = 1 / 1000000"

text \<open>
  \<open>bigram = joint.T / (np.sum(joint, axis=0)+1e-6)\<close> broadcasts the vector of column
  sums along the last axis: entry \<open>(a, b)\<close> of \<open>joint.T\<close> is divided by entry \<open>b\<close>
  of the vector. The function returns \<open>bigram.T, joint.T\<close>.
\<close>

definition learn_bigram :: "string \<Rightarrow> error + (matrix \<times> matrix)" where
  "learn_bigram string =
     (let coded = numerify string in
      case count_pairs (adjacent_pairs coded) np_zeros of
        Inl e \<Rightarrow> Inl e
      | Inr joint \<Rightarrow>
          (let bigram = (\<lambda>a b. transpose_m joint a b / (np_sum_axis0 joint b + epsilon))
           in Inr (transpose_m bigram, transpose_m joint)))"

section \<open>log_likelihood_bigram\<close>

text \<open>The loop \<open>llik += np.log(bigram[prev, this]+1e-8)\<close>, started at \<open>llik = 0\<close>.\<close>

fun sum_logs :: "(int \<times> int) list \<Rightarrow> matrix \<Rightarrow> npfloat \<Rightarrow> error + npfloat" where
  "sum_logs [] bigram llik = Inr llik"
| "sum_logs ((prev, this) # ps) bigram llik =
     (case np_index prev of
        Inl e \<Rightarrow> Inl e
      | Inr i \<Rightarrow>
          (case np_index this of
             Inl e \<Rightarrow> Inl e
           | Inr j \<Rightarrow> sum_logs ps bigram (np_add llik (np_log (bigram i j + 1 / 100000000)))))"

definition log_likelihood_bigram :: "string \<Rightarrow> matrix \<Rightarrow> error + npfloat" where
  "log_likelihood_bigram string bigram =
     (let symbols = numerify string in sum_logs (adjacent_pairs symbols) bigram (Fin 0))"

section \<open>metropolis\<close>

text \<open>
  The state of the loop: the current position \<open>x\<close>, the two lists, and the state of
  numpy's global random generator, which both \<open>q()\<close> and \<open>np.random.uniform(0,1)\<close>
  read and advance. Positions are elements of an additive monoid (arrays of one shape
  under elementwise addition, or scalars); the density \<open>p\<close> is real-valued. Its
  values are numpy floats, as those of the notebook's \<open>scipy\<close> density are: the
  division \<open>p(x_prime)/p(x)\<close> by zero yields \<open>nan\<close> or an infinity and raises
  nothing.
\<close>

record ('v, 'g) chain =
  chain_x :: 'v
  chain_samples :: "'v list"
  chain_rejected :: "'v list"
  chain_rng :: 'g

text \<open>One pass through the body of \<open>for i in range(n)\<close>.\<close>

definition metropolis_step ::
  "('v::monoid_add \<Rightarrow> real) \<Rightarrow> ('g \<Rightarrow> 'v \<times> 'g) \<Rightarrow> ('g \<Rightarrow> real \<times> 'g) \<Rightarrow>
   ('v, 'g) chain \<Rightarrow> ('v, 'g) chain" where
  "metropolis_step p q uniform st =
     (let (d, g1) = q (chain_rng st);
          x_prime = chain_x st + d
      in if p x_prime > p (chain_x st)
         then st\<lparr>chain_x := x_prime,
                 chain_samples := chain_samples st @ [x_prime],
                 chain_rng := g1\<rparr>
         else (let pa = np_div (p x_prime) (p (chain_x st));
                   (u, g2) = uniform g1
               in if np_less u pa
                  then st\<lparr>chain_x := x_prime,
                          chain_samples := chain_samples st @ [x_prime],
                          chain_rng := g2\<rparr>
                  else st\<lparr>chain_rejected := chain_rejected st @ [x_prime],
                          chain_rng := g2\<rparr>))"

primrec metropolis_loop ::
  "('v::monoid_add \<Rightarrow> real) \<Rightarrow> ('g \<Rightarrow> 'v \<times> 'g) \<Rightarrow> ('g \<Rightarrow> real \<times> 'g) \<Rightarrow>
   nat \<Rightarrow> ('v, 'g) chain \<Rightarrow> ('v, 'g) chain" where
  "metropolis_loop p q uniform 0 st = st"
| "metropolis_loop p q uniform (Suc k) st =
     metropolis_loop p q uniform k (metropolis_step p q uniform st)"

definition init_chain :: "'v \<Rightarrow> 'g \<Rightarrow> ('v, 'g) chain" where
  "init_chain x_init g =
     \<lparr>chain_x = x_init, chain_samples = [], chain_rejected = [], chain_rng = g\<rparr>"

text \<open>\<open>range(n)\<close> is empty for a negative \<open>n\<close>: the body runs \<open>nat n\<close> times.\<close>

definition metropolis ::
  "('v::monoid_add \<Rightarrow> real) \<Rightarrow> ('g \<Rightarrow> 'v \<times> 'g) \<Rightarrow> ('g \<Rightarrow> real \<times> 'g) \<Rightarrow>
   'v \<Rightarrow> int \<Rightarrow> 'g \<Rightarrow> 'v list \<times> 'v list" where
  "metropolis p q uniform x_init n g =
     (let st = metropolis_loop p q uniform (nat n) (init_chain x_init g)
      in (chain_samples st, chain_rejected st))"

section \<open>Notions of the specification\<close>

text \<open>
  The 27-symbol alphabet as the specification words it: white space first, then the
  letters \<open>a\<close> to \<open>z\<close>; a character is kept when it is white space or, after
  case folding, one of the 26 letters; its symbol is its place in the alphabet.
\<close>

definition ascii_lowercase :: string where
  "ascii_lowercase = ''abcdefghijklmnopqrstuvwxyz''"

definition ascii_uppercase :: string where
  "ascii_uppercase = ''ABCDEFGHIJKLMNOPQRSTUVWXYZ''"

definition whitespace :: string where
  "whitespace = [CHR '' '', CHR 0x09, CHR 0x0A, CHR 0x0B, CHR 0x0C, CHR 0x0D]"

definition alphabet :: string where
  "alphabet = CHR '' '' # ascii_lowercase"

fun index_of :: "'a \<Rightarrow> 'a list \<Rightarrow> nat" where
  "index_of a [] = 0"
| "index_of a (b # bs) = (if a = b then 0 else Suc (index_of a bs))"

definition case_fold :: "char \<Rightarrow> char" where
  "case_fold c =
     (case map_of (zip ascii_uppercase ascii_lowercase) c of Some l \<Rightarrow> l | None \<Rightarrow> c)"

definition spec_kept :: "char \<Rightarrow> bool" where
  "spec_kept c \<longleftrightarrow> case_fold c \<in> set ascii_lowercase \<or> c \<in> set whitespace"

definition spec_index :: "char \<Rightarrow> int" where
  "spec_index c =
     (if c \<in> set whitespace then 0 else int (index_of (case_fold c) alphabet))"

definition spec_numerify :: "string \<Rightarrow> int list" where
  "spec_numerify s = map spec_index (filter spec_kept s)"

definition is_ascii :: "char \<Rightarrow> bool" where
  "is_ascii c \<longleftrightarrow> py_ord c < 128"

text \<open>
  Counting the adjacent pairs of a symbol sequence: those equal to \<open>(i, j)\<close>, those
  whose first symbol is \<open>i\<close>, and those whose second symbol is \<open>j\<close>.
\<close>

definition n_pairs :: "(int \<times> int) list \<Rightarrow> nat \<Rightarrow> nat \<Rightarrow> nat" where
  "n_pairs ps i j = count_list ps (int i, int j)"

definition n_first :: "(int \<times> int) list \<Rightarrow> nat \<Rightarrow> nat" where
  "n_first ps i = length (filter (\<lambda>(prev, this). prev = int i) ps)"

definition n_second :: "(int \<times> int) list \<Rightarrow> nat \<Rightarrow> nat" where
  "n_second ps j = length (filter (\<lambda>(prev, this). this = int j) ps)"

definition pairs_in_bounds :: "(int \<times> int) list \<Rightarrow> bool" where
  "pairs_in_bounds ps =
     list_all (\<lambda>(prev, this). 0 \<le> prev \<and> prev < 27 \<and> 0 \<le> this \<and> this < 27) ps"

text \<open>Reading the two arrays \<open>learn_bigram\<close> returns: the first is the conditional
  matrix, the second the count matrix.\<close>

definition conditional_entry :: "string \<Rightarrow> nat \<Rightarrow> nat \<Rightarrow> error + real" where
  "conditional_entry s i j = map_sum id (\<lambda>(bigram, joint). bigram i j) (learn_bigram s)"

definition count_entry :: "string \<Rightarrow> nat \<Rightarrow> nat \<Rightarrow> error + real" where
  "count_entry s i j = map_sum id (\<lambda>(bigram, joint). joint i j) (learn_bigram s)"

definition conditional_row_sum :: "string \<Rightarrow> nat \<Rightarrow> error + real" where
  "conditional_row_sum s i =
     map_sum id (\<lambda>(bigram, joint). row_sum bigram i) (learn_bigram s)"

text \<open>
  The sampler's vocabulary. A step accepts the candidate when it becomes the current
  position and is appended to the accepted list; it rejects the candidate when the
  position and the accepted list stay as they are and the candidate is appended to the
  rejected list. The acceptance rule is the one of the specification: an unconditional
  improvement, or a draw below the ratio.
\<close>

definition step_accepts :: "('v, 'g) chain \<Rightarrow> ('v, 'g) chain \<Rightarrow> 'v \<Rightarrow> bool" where
  "step_accepts st st' x_prime \<longleftrightarrow>
     chain_x st' = x_prime \<and>
     chain_samples st' = chain_samples st @ [x_prime] \<and>
     chain_rejected st' = chain_rejected st"

definition step_rejects :: "('v, 'g) chain \<Rightarrow> ('v, 'g) chain \<Rightarrow> 'v \<Rightarrow> bool" where
  "step_rejects st st' x_prime \<longleftrightarrow>
     chain_x st' = chain_x st \<and>
     chain_samples st' = chain_samples st \<and>
     chain_rejected st' = chain_rejected st @ [x_prime]"

definition acceptance_rule :: "('v \<Rightarrow> real) \<Rightarrow> 'v \<Rightarrow> 'v \<Rightarrow> real \<Rightarrow> bool" where
  "acceptance_rule p x x_prime u \<longleftrightarrow> p x_prime > p x \<or> u < p x_prime / p x"

definition last_accepted :: "'v \<Rightarrow> 'v list \<Rightarrow> 'v" where
  "last_accepted x_init accepted = (if accepted = [] then x_init else last accepted)"

text \<open>An example target: the density of the uniform distribution on \<open>[0, 1]\<close>.\<close>

definition box_density :: "real \<Rightarrow> real" where
  "box_density x = (if 0 \<le> x \<and> x \<le> 1 then 1 else 0)"

section \<open>Counting adjacent pairs\<close>

lemma np_index_in_bounds: "0 \<le> a \<Longrightarrow> a < 27 \<Longrightarrow> np_index a = Inr (nat a)"
  by (simp add: np_index_def)

lemma pairs_in_bounds_Cons:
  "pairs_in_bounds ((a, b) # ps) \<longleftrightarrow>
     0 \<le> a \<and> a < 27 \<and> 0 \<le> b \<and> b < 27 \<and> pairs_in_bounds ps"
  by (auto simp add: pairs_in_bounds_def)

lemma n_pairs_Cons:
  "n_pairs ((a, b) # ps) i j = (if a = int i \<and> b = int j then 1 else 0) + n_pairs ps i j"
  by (simp add: n_pairs_def)

lemma count_pairs_in_bounds:
  "pairs_in_bounds ps \<Longrightarrow>
   count_pairs ps joint = Inr (\<lambda>i j. joint i j + real (n_pairs ps i j))"
proof (induction ps arbitrary: joint)
  case Nil
  show ?case by (simp add: n_pairs_def)
next
  case (Cons pr ps)
  obtain a b where pr: "pr = (a, b)" by (cases pr)
  from Cons.prems pr have ab: "0 \<le> a" "a < 27" "0 \<le> b" "b < 27"
    and rest: "pairs_in_bounds ps"
    by (simp_all add: pairs_in_bounds_Cons)
  have upd:
    "(\<lambda>i j. (joint(nat a := (joint (nat a))(nat b := joint (nat a) (nat b) + 1))) i j
            + real (n_pairs ps i j))
     = (\<lambda>i j. joint i j + real (n_pairs ((a, b) # ps) i j))"
    using ab by (intro ext) (auto simp add: n_pairs_Cons)
  show ?case
    using Cons.IH [OF rest] ab upd by (simp add: pr np_index_in_bounds)
qed

lemma indicator_sum_27:
  assumes "0 \<le> a" and "a < 27"
  shows "(\<Sum>i\<leftarrow>[0..<27]. if a = int i then (1::real) else 0) = 1"
proof -
  have "(\<Sum>i\<leftarrow>[0..<27]. if a = int i then (1::real) else 0)
        = (\<Sum>i\<in>{0..<27}. if i = nat a then 1 else 0)"
    unfolding interv_sum_list_conv_sum_set_nat using assms
    by (intro sum.cong) auto
  also have "\<dots> = 1" using assms by simp
  finally show ?thesis .
qed

lemma sum_n_pairs_first:
  "pairs_in_bounds ps \<Longrightarrow> (\<Sum>j\<leftarrow>[0..<27]. real (n_pairs ps i j)) = real (n_first ps i)"
proof (induction ps)
  case Nil
  show ?case by (simp add: n_pairs_def n_first_def)
next
  case (Cons pr ps)
  obtain a b where pr: "pr = (a, b)" by (cases pr)
  from Cons.prems pr have b: "0 \<le> b" "b < 27" and rest: "pairs_in_bounds ps"
    by (simp_all add: pairs_in_bounds_Cons)
  have "(\<Sum>j\<leftarrow>[0..<27]. real (n_pairs (pr # ps) i j))
      = (\<Sum>j\<leftarrow>[0..<27]. (if a = int i then (if b = int j then 1 else 0) else 0)
                          + real (n_pairs ps i j))"
    unfolding pr n_pairs_Cons by (intro arg_cong [where f = sum_list] map_cong) auto
  also have "\<dots> = (if a = int i then (\<Sum>j\<leftarrow>[0..<27]. if b = int j then (1::real) else 0) else 0)
                  + (\<Sum>j\<leftarrow>[0..<27]. real (n_pairs ps i j))"
    by (simp add: sum_list_addf del: upt_Suc)
  also have "\<dots> = (if a = int i then 1 else 0) + real (n_first ps i)"
    using Cons.IH [OF rest] b by (simp add: indicator_sum_27)
  also have "\<dots> = real (n_first (pr # ps) i)"
    by (simp add: pr n_first_def)
  finally show ?case .
qed

lemma sum_n_pairs_second:
  "pairs_in_bounds ps \<Longrightarrow> (\<Sum>i\<leftarrow>[0..<27]. real (n_pairs ps i j)) = real (n_second ps j)"
proof (induction ps)
  case Nil
  show ?case by (simp add: n_pairs_def n_second_def)
next
  case (Cons pr ps)
  obtain a b where pr: "pr = (a, b)" by (cases pr)
  from Cons.prems pr have a: "0 \<le> a" "a < 27" and rest: "pairs_in_bounds ps"
    by (simp_all add: pairs_in_bounds_Cons)
  have "(\<Sum>i\<leftarrow>[0..<27]. real (n_pairs (pr # ps) i j))
      = (\<Sum>i\<leftarrow>[0..<27]. (if b = int j then (if a = int i then 1 else 0) else 0)
                          + real (n_pairs ps i j))"
    unfolding pr n_pairs_Cons by (intro arg_cong [where f = sum_list] map_cong) auto
  also have "\<dots> = (if b = int j then (\<Sum>i\<leftarrow>[0..<27]. if a = int i then (1::real) else 0) else 0)
                  + (\<Sum>i\<leftarrow>[0..<27]. real (n_pairs ps i j))"
    by (simp add: sum_list_addf del: upt_Suc)
  also have "\<dots> = (if b = int j then 1 else 0) + real (n_second ps j)"
    using Cons.IH [OF rest] a by (simp add: indicator_sum_27)
  also have "\<dots> = real (n_second (pr # ps) j)"
    by (simp add: pr n_second_def)
  finally show ?case .
qed

section \<open>numerify against the alphabet of the specification\<close>

lemma char_cases_all: "(\<forall>c::char. P c) \<longleftrightarrow> list_all P Enum.enum"
  by (simp add: list_all_iff enum_UNIV)

text \<open>All 256 characters are checked one by one.\<close>

lemma kept_char_table:
  "\<forall>c. (isalpha c \<or> isspace c) = spec_kept c \<and>
       (spec_kept c \<longrightarrow>
          max (1 + py_ord (lower c) - py_ord CHR ''a'') 0 = spec_index c \<and>
          0 \<le> spec_index c \<and> spec_index c \<le> 26)"
  unfolding char_cases_all by code_simp

lemma kept_char_iff: "(isalpha c \<or> isspace c) = spec_kept c"
  using kept_char_table by blast

lemma kept_char_index:
  "spec_kept c \<Longrightarrow> max (1 + py_ord (lower c) - py_ord CHR ''a'') 0 = spec_index c"
  using kept_char_table by blast

lemma spec_index_range: "spec_kept c \<Longrightarrow> 0 \<le> spec_index c \<and> spec_index c \<le> 26"
  using kept_char_table by blast

lemma numerify_refines: "numerify s = spec_numerify s"
  unfolding numerify_def spec_numerify_def
  by (induction s) (simp_all add: kept_char_iff kept_char_index)

lemma numerify_range: "k \<in> set (numerify s) \<Longrightarrow> 0 \<le> k \<and> k \<le> 26"
  unfolding numerify_refines spec_numerify_def using spec_index_range by auto

lemma adjacent_pairs_subset:
  "(a, b) \<in> set (adjacent_pairs xs) \<Longrightarrow> a \<in> set xs \<and> b \<in> set xs"
proof -
  assume "(a, b) \<in> set (adjacent_pairs xs)"
  then have "a \<in> set (butlast xs)" and "b \<in> set (tl xs)"
    unfolding adjacent_pairs_def by (auto dest: set_zip_leftD set_zip_rightD)
  then have "a \<in> set xs" and "b \<in> set xs"
    by (auto dest: in_set_butlastD list.set_sel(2) [rotated])
  then show ?thesis by simp
qed

lemma numerify_pairs_in_bounds: "pairs_in_bounds (adjacent_pairs (numerify s))"
  unfolding pairs_in_bounds_def list_all_iff
  using adjacent_pairs_subset numerify_range by fastforce

section \<open>What learn_bigram returns\<close>

lemma np_sum_axis0_counts:
  "pairs_in_bounds ps \<Longrightarrow>
   np_sum_axis0 (\<lambda>i j. real (n_pairs ps i j)) a = real (n_second ps a)"
  unfolding np_sum_axis0_def by (rule sum_n_pairs_second)

lemma learn_bigram_eq:
  "learn_bigram s =
     Inr (\<lambda>a b. real (n_pairs (adjacent_pairs (numerify s)) a b)
                 / (real (n_second (adjacent_pairs (numerify s)) a) + epsilon),
          \<lambda>i j. real (n_pairs (adjacent_pairs (numerify s)) j i))"
  unfolding learn_bigram_def Let_def
  by (simp add: count_pairs_in_bounds [OF numerify_pairs_in_bounds] np_zeros_def
      transpose_m_def np_sum_axis0_counts [OF numerify_pairs_in_bounds])

lemma count_entry_eq:
  "count_entry s i j = Inr (real (n_pairs (adjacent_pairs (numerify s)) j i))"
  unfolding count_entry_def learn_bigram_eq by simp

lemma conditional_entry_eq:
  "conditional_entry s i j =
     Inr (real (n_pairs (adjacent_pairs (numerify s)) i j)
          / (real (n_second (adjacent_pairs (numerify s)) i) + epsilon))"
  unfolding conditional_entry_def learn_bigram_eq by simp

lemma conditional_row_sum_eq:
  "conditional_row_sum s a =
     Inr (real (n_first (adjacent_pairs (numerify s)) a)
          / (real (n_second (adjacent_pairs (numerify s)) a) + epsilon))"
proof -
  let ?ps = "adjacent_pairs (numerify s)"
  have "(\<Sum>j\<leftarrow>[0..<27]. real (n_pairs ?ps a j) / (real (n_second ?ps a) + epsilon))
        = (\<Sum>j\<leftarrow>[0..<27]. real (n_pairs ?ps a j)) / (real (n_second ?ps a) + epsilon)"
    unfolding interv_sum_list_conv_sum_set_nat by (simp add: sum_divide_distrib)
  then show ?thesis
    unfolding conditional_row_sum_def learn_bigram_eq row_sum_def
    by (simp add: sum_n_pairs_first [OF numerify_pairs_in_bounds] del: upt_Suc)
qed

section \<open>Concrete texts\<close>

lemma numerify_ab: "numerify ''ab'' = [1, 2]"
  by code_simp

lemma numerify_aa: "numerify ''aa'' = [1, 1]"
  by code_simp

lemma numerify_aba: "numerify ''aba'' = [1, 2, 1]"
  by code_simp

section \<open>Claims about numerify and learn_bigram\<close>

text \<open>
  C7. For every input string, \<open>numerify\<close> keeps exactly the characters that are
  letters (case-insensitively) or white space, drops every other character, keeps the
  kept characters in their order, and maps each kept character to its index in the
  27-symbol alphabet: white space to 0, the letters \<open>a\<close> to \<open>z\<close>, after case folding,
  to 1 to 26. The input is a Python 2 byte string, classified as in the "C" locale.
\<close>

theorem numerify_filters_and_indexes:
  "numerify s = map spec_index (filter spec_kept s)"
  using numerify_refines [of s] by (simp add: spec_numerify_def)

text \<open>
  C2. The claim says that entry \<open>(i, j)\<close> of the returned count matrix is the number
  of adjacent pairs whose first symbol is \<open>i\<close> and whose second symbol is \<open>j\<close>. The
  loop fills \<open>joint[prev, this]\<close> that way, but the function returns \<open>joint.T\<close>: on
  the text \<open>ab\<close>, whose only pair is \<open>(1, 2)\<close>, the returned matrix holds 0 at
  \<open>(1, 2)\<close> and 1 at \<open>(2, 1)\<close>.
\<close>

theorem learn_bigram_counts_transposed_ab:
  "count_entry ''ab'' 1 2 = Inr 0 \<and> count_entry ''ab'' 2 1 = Inr 1"
  by (simp add: count_entry_eq numerify_ab adjacent_pairs_def n_pairs_def)

text \<open>The part of C2 about the text \<open>aa\<close> holds: the diagonal hides the transposition.\<close>

lemma learn_bigram_counts_aa:
  "count_entry ''aa'' i j = Inr (if i = 1 \<and> j = 1 then 1 else 0)"
  by (auto simp add: count_entry_eq numerify_aa adjacent_pairs_def n_pairs_def)

text \<open>
  C1, as stated, fails: each row of the conditional matrix should sum to 1 up to an
  error of order \<open>1e-6\<close> whenever the filtered sequence is not empty. On the text
  \<open>ab\<close> the row of \<open>a\<close> sums to \<open>1000000\<close> and the row of \<open>b\<close> to 0.
\<close>

theorem conditional_row_sum_not_one_ab:
  "conditional_row_sum ''ab'' 1 = Inr 1000000 \<and> conditional_row_sum ''ab'' 2 = Inr 0"
  by (simp add: conditional_row_sum_eq numerify_ab adjacent_pairs_def n_first_def
      n_second_def epsilon_def)

text \<open>
  C1, amended. For every text and every row \<open>a < 27\<close> of the returned conditional
  matrix: a row whose symbol is never the first of an adjacent pair sums to exactly 0;
  a row whose symbol is \<open>k \<ge> 1\<close> times the first and also \<open>k\<close> times the second of
  an adjacent pair sums to \<open>k / (k + 1e-6)\<close>, which lies strictly between
  \<open>1 - 1e-6\<close> and 1.
\<close>

theorem conditional_row_sum_balanced:
  assumes "a < 27"
  shows "(n_first (adjacent_pairs (numerify s)) a = 0 \<longrightarrow> conditional_row_sum s a = Inr 0) \<and>
     (0 < n_first (adjacent_pairs (numerify s)) a \<and>
      n_second (adjacent_pairs (numerify s)) a = n_first (adjacent_pairs (numerify s)) a \<longrightarrow>
        (\<exists>r. conditional_row_sum s a = Inr r \<and>
             r = real (n_first (adjacent_pairs (numerify s)) a)
                 / (real (n_first (adjacent_pairs (numerify s)) a) + epsilon) \<and>
             1 - epsilon < r \<and> r < 1))"
proof (intro conjI impI)
  assume "n_first (adjacent_pairs (numerify s)) a = 0"
  then show "conditional_row_sum s a = Inr 0"
    by (simp add: conditional_row_sum_eq)
next
  let ?k = "real (n_first (adjacent_pairs (numerify s)) a)"
  assume h: "0 < n_first (adjacent_pairs (numerify s)) a \<and>
      n_second (adjacent_pairs (numerify s)) a = n_first (adjacent_pairs (numerify s)) a"
  then have k: "1 \<le> ?k" by simp
  have eps: "0 < epsilon" "epsilon < 1" by (simp_all add: epsilon_def)
  have lt: "?k / (?k + epsilon) < 1" using k eps by (simp add: field_simps)
  have "(1 - epsilon) * (?k + epsilon) < ?k"
  proof -
    have "(1 - epsilon) * (?k + epsilon) = ?k - epsilon * (?k + epsilon - 1)"
      by (simp add: algebra_simps)
    moreover have "0 < epsilon * (?k + epsilon - 1)" using k eps by simp
    ultimately show ?thesis by simp
  qed
  then have gt: "1 - epsilon < ?k / (?k + epsilon)"
    using k eps by (simp add: pos_less_divide_eq)
  show "\<exists>r. conditional_row_sum s a = Inr r \<and> r = ?k / (?k + epsilon) \<and>
            1 - epsilon < r \<and> r < 1"
    using h lt gt by (simp add: conditional_row_sum_eq)
qed

theorem conditional_row_sum_balanced_witness:
  "(1::nat) < 27 \<and> (3::nat) < 27 \<and>
   n_first (adjacent_pairs (numerify ''aba'')) 3 = 0 \<and>
   conditional_row_sum ''aba'' 3 = Inr 0 \<and>
   n_first (adjacent_pairs (numerify ''aba'')) 1 = 1 \<and>
   n_second (adjacent_pairs (numerify ''aba'')) 1 = 1 \<and>
   conditional_row_sum ''aba'' 1 = Inr (1000000 / 1000001)"
  using conditional_row_sum_balanced [of 1 "''aba''"]
    conditional_row_sum_balanced [of 3 "''aba''"]
  by (auto simp add: numerify_aba adjacent_pairs_def n_first_def n_second_def epsilon_def)

section \<open>Short texts and the log-likelihood\<close>

lemma adjacent_pairs_short: "length xs < 2 \<Longrightarrow> adjacent_pairs xs = []"
  unfolding adjacent_pairs_def by (cases xs) auto

lemma sum_logs_in_bounds:
  "pairs_in_bounds ps \<Longrightarrow> \<exists>l. sum_logs ps bigram llik = Inr l"
proof (induction ps arbitrary: llik)
  case Nil
  show ?case by simp
next
  case (Cons pr ps)
  obtain a b where pr: "pr = (a, b)" by (cases pr)
  from Cons.prems pr have ab: "0 \<le> a" "a < 27" "0 \<le> b" "b < 27"
    and rest: "pairs_in_bounds ps"
    by (simp_all add: pairs_in_bounds_Cons)
  show ?case
    using Cons.IH [OF rest] ab by (simp add: pr np_index_in_bounds)
qed

lemma sum_logs_finite:
  assumes nonneg: "\<forall>i<27. \<forall>j<27. 0 \<le> bigram i j"
  shows "pairs_in_bounds ps \<Longrightarrow>
    sum_logs ps bigram (Fin acc) =
      Inr (Fin (acc + (\<Sum>(prev, this)\<leftarrow>ps. ln (bigram (nat prev) (nat this) + 1 / 100000000))))"
proof (induction ps arbitrary: acc)
  case Nil
  show ?case by simp
next
  case (Cons pr ps)
  obtain a b where pr: "pr = (a, b)" by (cases pr)
  from Cons.prems pr have ab: "0 \<le> a" "a < 27" "0 \<le> b" "b < 27"
    and rest: "pairs_in_bounds ps"
    by (simp_all add: pairs_in_bounds_Cons)
  from ab have "nat a < 27" "nat b < 27" by simp_all
  with nonneg have "0 \<le> bigram (nat a) (nat b)" by blast
  then have pos: "0 < bigram (nat a) (nat b) + 1 / 100000000" by simp
  show ?case
    using Cons.IH [OF rest] ab pos
    by (simp add: pr np_index_in_bounds np_log_def add.assoc)
qed

lemma numerify_a_bang: "numerify ''a!'' = [1]"
  by code_simp

lemma numerify_hi: "numerify ''Hi, yo!'' = [8, 9, 0, 25, 15]"
  by code_simp

text \<open>
  C8. For every text whose filtered symbol sequence has fewer than 2 elements,
  \<open>learn_bigram\<close> returns an all-zero count matrix, and \<open>log_likelihood_bigram\<close>
  returns exactly 0 on that text under every conditional matrix.
\<close>

theorem short_text_trivial:
  assumes "length (numerify s) < 2"
  shows "(\<forall>i j. count_entry s i j = Inr 0) \<and>
         (\<forall>bigram. log_likelihood_bigram s bigram = Inr (Fin 0))"
  using adjacent_pairs_short [OF assms]
  by (simp add: count_entry_eq n_pairs_def log_likelihood_bigram_def)

theorem short_text_trivial_witness:
  "length (numerify ''a!'') < 2 \<and>
   count_entry ''a!'' 1 1 = Inr 0 \<and>
   log_likelihood_bigram ''a!'' np_zeros = Inr (Fin 0)"
  using short_text_trivial [of "''a!''"] by (simp add: numerify_a_bang)

text \<open>
  C9. For every text and every conditional matrix with non-negative entries, the value
  \<open>log_likelihood_bigram\<close> returns is finite: it is the sum, over the adjacent pairs,
  of the logarithm of the matrix entry plus \<open>1e-8\<close>, so that a pair of probability 0
  adds \<open>ln 1e-8\<close> and not the logarithm of zero.
\<close>

theorem log_likelihood_bigram_finite:
  assumes "\<forall>i<27. \<forall>j<27. 0 \<le> bigram i j"
  shows "log_likelihood_bigram s bigram =
     Inr (Fin (\<Sum>(prev, this)\<leftarrow>adjacent_pairs (numerify s).
                 ln (bigram (nat prev) (nat this) + 1 / 100000000)))"
  using sum_logs_finite [OF assms numerify_pairs_in_bounds, of s 0]
  by (simp add: log_likelihood_bigram_def)

theorem log_likelihood_bigram_finite_witness:
  "log_likelihood_bigram ''ab'' np_zeros = Inr (Fin (ln (1 / 100000000)))"
proof -
  have h: "\<forall>i<27. \<forall>j<27. 0 \<le> np_zeros i j" by (simp add: np_zeros_def)
  show ?thesis
    using log_likelihood_bigram_finite [OF h, of "''ab''"]
    by (simp add: numerify_ab adjacent_pairs_def np_zeros_def)
qed

text \<open>
  C10. For every string of ASCII characters, every element of \<open>numerify\<close>'s result is
  an integer from 0 to 26, so every index with which \<open>learn_bigram\<close> and
  \<open>log_likelihood_bigram\<close> access their 27 by 27 arrays is within bounds: neither
  raises \<open>IndexError\<close>. (Bytes outside ASCII are neither letters nor spaces in the
  "C" locale and are dropped.)
\<close>

theorem numerify_indices_in_bounds:
  assumes "\<forall>c\<in>set s. is_ascii c"
  shows "(\<forall>k\<in>set (numerify s). 0 \<le> k \<and> k \<le> 26) \<and>
         (\<forall>(prev, this)\<in>set (adjacent_pairs (numerify s)).
             np_index prev = Inr (nat prev) \<and> nat prev < 27 \<and>
             np_index this = Inr (nat this) \<and> nat this < 27) \<and>
         (\<exists>r. learn_bigram s = Inr r) \<and>
         (\<forall>bigram. \<exists>l. log_likelihood_bigram s bigram = Inr l)"
proof (intro conjI)
  show "\<forall>k\<in>set (numerify s). 0 \<le> k \<and> k \<le> 26"
    using numerify_range by blast
  show "\<forall>(prev, this)\<in>set (adjacent_pairs (numerify s)).
             np_index prev = Inr (nat prev) \<and> nat prev < 27 \<and>
             np_index this = Inr (nat this) \<and> nat this < 27"
    using numerify_pairs_in_bounds [of s]
    by (auto simp add: pairs_in_bounds_def list_all_iff np_index_in_bounds)
  show "\<exists>r. learn_bigram s = Inr r"
    by (simp add: learn_bigram_eq)
  show "\<forall>bigram. \<exists>l. log_likelihood_bigram s bigram = Inr l"
    using sum_logs_in_bounds [OF numerify_pairs_in_bounds]
    by (simp add: log_likelihood_bigram_def)
qed

theorem numerify_indices_in_bounds_witness:
  "list_all is_ascii ''Hi, yo!'' \<and>
   numerify ''Hi, yo!'' = [8, 9, 0, 25, 15] \<and>
   (\<exists>r. learn_bigram ''Hi, yo!'' = Inr r) \<and>
   (\<exists>l. log_likelihood_bigram ''Hi, yo!'' np_zeros = Inr l)"
proof -
  have h: "\<forall>c\<in>set ''Hi, yo!''. is_ascii c" by code_simp
  show ?thesis
    using h numerify_indices_in_bounds [OF h] numerify_hi
    by (simp add: list_all_iff)
qed

section \<open>The Metropolis sampler\<close>

lemma metropolis_step_cases:
  assumes "q (chain_rng st) = (d, g1)" and "uniform g1 = (u, g2)"
  shows "metropolis_step p q uniform st =
     (if p (chain_x st + d) > p (chain_x st)
      then st\<lparr>chain_x := chain_x st + d,
              chain_samples := chain_samples st @ [chain_x st + d],
              chain_rng := g1\<rparr>
      else if np_less u (np_div (p (chain_x st + d)) (p (chain_x st)))
      then st\<lparr>chain_x := chain_x st + d,
              chain_samples := chain_samples st @ [chain_x st + d],
              chain_rng := g2\<rparr>
      else st\<lparr>chain_rejected := chain_rejected st @ [chain_x st + d],
              chain_rng := g2\<rparr>)"
  using assms by (simp add: metropolis_step_def Let_def)

lemma metropolis_step_lengths:
  "length (chain_samples (metropolis_step p q uniform st))
     + length (chain_rejected (metropolis_step p q uniform st))
   = Suc (length (chain_samples st) + length (chain_rejected st))"
proof -
  obtain d g1 where q: "q (chain_rng st) = (d, g1)" by (cases "q (chain_rng st)")
  obtain u g2 where u: "uniform g1 = (u, g2)" by (cases "uniform g1")
  show ?thesis by (simp add: metropolis_step_cases [where q = q and uniform = uniform, OF q u])
qed

lemma metropolis_loop_lengths:
  "length (chain_samples (metropolis_loop p q uniform k st))
     + length (chain_rejected (metropolis_loop p q uniform k st))
   = k + (length (chain_samples st) + length (chain_rejected st))"
  by (induction k arbitrary: st) (simp_all add: metropolis_step_lengths)

lemma metropolis_step_last_accepted:
  assumes "chain_x st = last_accepted x_init (chain_samples st)"
  shows "chain_x (metropolis_step p q uniform st)
         = last_accepted x_init (chain_samples (metropolis_step p q uniform st))"
proof -
  obtain d g1 where q: "q (chain_rng st) = (d, g1)" by (cases "q (chain_rng st)")
  obtain u g2 where u: "uniform g1 = (u, g2)" by (cases "uniform g1")
  show ?thesis using assms by (simp add: metropolis_step_cases [where q = q and uniform = uniform, OF q u] last_accepted_def)
qed

lemma metropolis_loop_last_accepted:
  "chain_x st = last_accepted x_init (chain_samples st) \<Longrightarrow>
   chain_x (metropolis_loop p q uniform k st)
     = last_accepted x_init (chain_samples (metropolis_loop p q uniform k st))"
  by (induction k arbitrary: st) (simp_all add: metropolis_step_last_accepted)

lemma metropolis_step_rejected_keeps_x:
  assumes "chain_rejected (metropolis_step p q uniform st) \<noteq> chain_rejected st"
  shows "chain_x (metropolis_step p q uniform st) = chain_x st \<and>
         chain_samples (metropolis_step p q uniform st) = chain_samples st"
proof -
  obtain d g1 where q: "q (chain_rng st) = (d, g1)" by (cases "q (chain_rng st)")
  obtain u g2 where u: "uniform g1 = (u, g2)" by (cases "uniform g1")
  show ?thesis using assms by (simp add: metropolis_step_cases [where q = q and uniform = uniform, OF q u] split: if_splits)
qed

lemma np_less_np_div: "b \<noteq> 0 \<Longrightarrow> np_less u (np_div a b) = (u < a / b)"
  by (simp add: np_div_def)

lemma zero_proposal_step:
  fixes p :: "'v::monoid_add \<Rightarrow> real"
  assumes q0: "\<forall>g. fst (q g) = 0" and u1: "\<forall>g. fst (uniform g) < 1"
    and nz: "p (chain_x st) \<noteq> 0"
  shows "chain_x (metropolis_step p q uniform st) = chain_x st \<and>
         chain_samples (metropolis_step p q uniform st) = chain_samples st @ [chain_x st] \<and>
         chain_rejected (metropolis_step p q uniform st) = chain_rejected st"
proof -
  obtain d g1 where q: "q (chain_rng st) = (d, g1)" by (cases "q (chain_rng st)")
  obtain u g2 where u: "uniform g1 = (u, g2)" by (cases "uniform g1")
  from q0 q have d: "d = 0" by (metis fst_conv)
  from u1 u have "u < 1" by (metis fst_conv)
  then show ?thesis
    using nz by (simp add: metropolis_step_cases [where q = q and uniform = uniform, OF q u]
        d np_div_def)
qed

lemma zero_proposal_loop:
  fixes p :: "'v::monoid_add \<Rightarrow> real"
  assumes q0: "\<forall>g. fst (q g) = 0" and u1: "\<forall>g. fst (uniform g) < 1"
  shows "p (chain_x st) \<noteq> 0 \<Longrightarrow>
         chain_x (metropolis_loop p q uniform k st) = chain_x st \<and>
         chain_samples (metropolis_loop p q uniform k st)
           = chain_samples st @ replicate k (chain_x st) \<and>
         chain_rejected (metropolis_loop p q uniform k st) = chain_rejected st"
proof (induction k arbitrary: st)
  case 0
  show ?case by simp
next
  case (Suc k)
  note step = zero_proposal_step [where p = p and st = st, OF q0 u1 Suc.prems]
  from step Suc.prems have "p (chain_x (metropolis_step p q uniform st)) \<noteq> 0" by simp
  from Suc.IH [OF this] step show ?case
    by (simp add: replicate_app_Cons_same)
qed

text \<open>
  C3. For every density \<open>p\<close>, proposal sampler \<open>q\<close>, initial position and iteration
  count \<open>n \<ge> 0\<close>, the two sequences \<open>metropolis\<close> returns have lengths that add up
  to \<open>n\<close>.
\<close>

theorem metropolis_lengths_add_up:
  assumes "0 \<le> n"
  shows "int (length (fst (metropolis p q uniform x_init n g))
              + length (snd (metropolis p q uniform x_init n g))) = n"
  using assms metropolis_loop_lengths [of p q uniform "nat n" "init_chain x_init g"]
  by (simp add: metropolis_def Let_def init_chain_def)

theorem metropolis_lengths_add_up_witness:
  "(0::int) \<le> 3 \<and>
   metropolis box_density (\<lambda>g::unit. (1 / 2, g)) (\<lambda>g. (1 / 4, g)) 0 3 ()
     = ([1 / 2, 1], [3 / 2]) \<and>
   int (length (fst (metropolis box_density (\<lambda>g::unit. (1 / 2, g)) (\<lambda>g. (1 / 4, g)) 0 3 ()))
        + length (snd (metropolis box_density (\<lambda>g::unit. (1 / 2, g)) (\<lambda>g. (1 / 4, g)) 0 3 ()))) = 3"
  using metropolis_lengths_add_up [of 3 box_density "\<lambda>g::unit. (1 / 2, g)" "\<lambda>g. (1 / 4, g)" 0 "()"]
  by (simp add: metropolis_def init_chain_def eval_nat_numeral metropolis_step_def
      np_div_def box_density_def)

text \<open>
  C4. One iteration, started in any state \<open>st\<close> at whose position \<open>p\<close> is strictly
  positive, with \<open>d\<close> the offset \<open>q()\<close> returns and \<open>u\<close> the value of the uniform draw
  that follows it: if \<open>p(x') > p(x)\<close> the candidate \<open>x' = x + d\<close> is accepted
  whatever \<open>u\<close> is; otherwise it is accepted if and only if \<open>u < p(x')/p(x)\<close>. Hence
  an element is appended to the accepted list only when it satisfies the acceptance
  rule against \<open>chain_x st\<close>, the position held immediately before.
\<close>

theorem metropolis_step_acceptance_rule:
  fixes p :: "'v::monoid_add \<Rightarrow> real"
  assumes pos: "0 < p (chain_x st)"
    and q: "q (chain_rng st) = (d, g1)"
    and u: "uniform g1 = (u, g2)"
  shows "(p (chain_x st + d) > p (chain_x st) \<longrightarrow>
            step_accepts st (metropolis_step p q uniform st) (chain_x st + d)) \<and>
         (\<not> p (chain_x st + d) > p (chain_x st) \<longrightarrow>
            (step_accepts st (metropolis_step p q uniform st) (chain_x st + d)
               \<longleftrightarrow> u < p (chain_x st + d) / p (chain_x st))) \<and>
         (step_accepts st (metropolis_step p q uniform st) (chain_x st + d)
            \<longleftrightarrow> acceptance_rule p (chain_x st) (chain_x st + d) u) \<and>
         (step_rejects st (metropolis_step p q uniform st) (chain_x st + d)
            \<longleftrightarrow> \<not> acceptance_rule p (chain_x st) (chain_x st + d) u) \<and>
         (chain_samples (metropolis_step p q uniform st) \<noteq> chain_samples st \<longrightarrow>
            chain_samples (metropolis_step p q uniform st)
              = chain_samples st @ [chain_x st + d] \<and>
            acceptance_rule p (chain_x st) (chain_x st + d) u)"
proof -
  from pos have nz: "p (chain_x st) \<noteq> 0" by simp
  show ?thesis
    by (simp add: metropolis_step_cases [where q = q and uniform = uniform, OF q u]
        np_less_np_div [OF nz] step_accepts_def step_rejects_def acceptance_rule_def)
qed

theorem metropolis_step_acceptance_rule_witness:
  "0 < box_density (chain_x (init_chain (0::real) ())) \<and>
   step_accepts (init_chain 0 ())
     (metropolis_step box_density (\<lambda>g. (1 / 2, g)) (\<lambda>g. (1 / 4, g)) (init_chain 0 ()))
     (1 / 2) \<and>
   acceptance_rule box_density 0 (1 / 2) (1 / 4) \<and>
   0 < box_density (chain_x (init_chain (1::real) ())) \<and>
   step_rejects (init_chain 1 ())
     (metropolis_step box_density (\<lambda>g. (1 / 2, g)) (\<lambda>g. (1 / 4, g)) (init_chain 1 ()))
     (3 / 2) \<and>
   \<not> acceptance_rule box_density 1 (3 / 2) (1 / 4)"
  using metropolis_step_acceptance_rule
      [of box_density "init_chain (0::real) ()" "\<lambda>g. (1 / 2, g)" "1 / 2" "()"
          "\<lambda>g. (1 / 4, g)" "1 / 4" "()"]
    metropolis_step_acceptance_rule
      [of box_density "init_chain (1::real) ()" "\<lambda>g. (1 / 2, g)" "1 / 2" "()"
          "\<lambda>g. (1 / 4, g)" "1 / 4" "()"]
  by (simp add: init_chain_def box_density_def acceptance_rule_def)

text \<open>
  C5. Let \<open>st\<close> be the state of a run after any number \<open>k\<close> of iterations. The current
  position of \<open>st\<close> is the last element of the accepted list, or the initial position
  while that list is empty; and if the next iteration rejects its proposal, it leaves
  the current position (and the accepted list) as they are.
\<close>

theorem metropolis_current_position:
  fixes p :: "'v::monoid_add \<Rightarrow> real"
  assumes "st = metropolis_loop p q uniform k (init_chain x_init g)"
  shows "chain_x st = last_accepted x_init (chain_samples st) \<and>
         (chain_rejected (metropolis_step p q uniform st) \<noteq> chain_rejected st \<longrightarrow>
            chain_x (metropolis_step p q uniform st) = chain_x st \<and>
            chain_samples (metropolis_step p q uniform st) = chain_samples st)"
proof
  have "chain_x (init_chain x_init g) = last_accepted x_init (chain_samples (init_chain x_init g))"
    by (simp add: init_chain_def last_accepted_def)
  then show "chain_x st = last_accepted x_init (chain_samples st)"
    unfolding assms by (rule metropolis_loop_last_accepted)
  show "chain_rejected (metropolis_step p q uniform st) \<noteq> chain_rejected st \<longrightarrow>
            chain_x (metropolis_step p q uniform st) = chain_x st \<and>
            chain_samples (metropolis_step p q uniform st) = chain_samples st"
    using metropolis_step_rejected_keeps_x by blast
qed

theorem metropolis_current_position_witness:
  "metropolis_loop box_density (\<lambda>g::unit. (1 / 2, g)) (\<lambda>g. (1 / 4, g)) 2 (init_chain 0 ())
     = \<lparr>chain_x = 1, chain_samples = [1 / 2, 1], chain_rejected = [], chain_rng = ()\<rparr> \<and>
   last_accepted (0::real) [1 / 2, 1] = 1 \<and>
   chain_rejected (metropolis_step box_density (\<lambda>g::unit. (1 / 2, g)) (\<lambda>g. (1 / 4, g))
       \<lparr>chain_x = 1, chain_samples = [1 / 2, 1], chain_rejected = [], chain_rng = ()\<rparr>)
     = [3 / 2] \<and>
   chain_x (metropolis_step box_density (\<lambda>g::unit. (1 / 2, g)) (\<lambda>g. (1 / 4, g))
       \<lparr>chain_x = 1, chain_samples = [1 / 2, 1], chain_rejected = [], chain_rng = ()\<rparr>)
     = 1"
proof -
  have run: "metropolis_loop box_density (\<lambda>g::unit. (1 / 2, g)) (\<lambda>g. (1 / 4, g)) 2 (init_chain 0 ())
     = \<lparr>chain_x = 1, chain_samples = [1 / 2, 1], chain_rejected = [], chain_rng = ()\<rparr>"
    by (simp add: init_chain_def eval_nat_numeral metropolis_step_def np_div_def box_density_def)
  have rej: "chain_rejected (metropolis_step box_density (\<lambda>g::unit. (1 / 2, g)) (\<lambda>g. (1 / 4, g))
       \<lparr>chain_x = 1, chain_samples = [1 / 2, 1], chain_rejected = [], chain_rng = ()\<rparr>)
     = [3 / 2]"
    by (simp add: metropolis_step_def np_div_def box_density_def)
  show ?thesis
    using metropolis_current_position
      [of _ box_density "\<lambda>g::unit. (1 / 2, g)" "\<lambda>g. (1 / 4, g)" 2 0 "()", OF run [symmetric]]
      run rej
    by (simp add: last_accepted_def)
qed

text \<open>
  C6, as stated, fails where the density vanishes at the initial position: with the
  uniform density on \<open>[0, 1]\<close>, the initial position 2 and a proposal sampler that
  always returns 0, the ratio is \<open>0/0\<close>, \<open>nan\<close> in numpy, no draw is below it, and
  all three proposals are rejected.
\<close>

theorem metropolis_zero_proposal_box_density:
  "metropolis box_density (\<lambda>g::unit. (0, g)) (\<lambda>g. (0, g)) 2 3 () = ([], [2, 2, 2])"
  by (simp add: metropolis_def init_chain_def eval_nat_numeral metropolis_step_def
      np_div_def box_density_def)

text \<open>
  C6, amended. If \<open>q\<close> always returns the zero vector, every uniform draw is below 1
  and \<open>p\<close> is not zero at the initial position \<open>x_init\<close>, then after \<open>n \<ge> 0\<close>
  iterations the accepted list holds \<open>n\<close> copies of \<open>x_init\<close> and the rejected list
  is empty.
\<close>

theorem metropolis_zero_proposal:
  fixes p :: "'v::monoid_add \<Rightarrow> real"
  assumes "\<forall>g. fst (q g) = 0" and "\<forall>g. fst (uniform g) < 1"
    and "p x_init \<noteq> 0" and "0 \<le> n"
  shows "metropolis p q uniform x_init n g = (replicate (nat n) x_init, [])"
  using zero_proposal_loop [where p = p and st = "init_chain x_init g" and k = "nat n", OF assms(1,2)] assms(3)
  by (simp add: metropolis_def Let_def init_chain_def)

theorem metropolis_zero_proposal_witness:
  "fst ((\<lambda>g::unit. (0::real, g)) ()) = 0 \<and> fst ((\<lambda>g::unit. (1 / 4 :: real, g)) ()) < 1 \<and>
   box_density (1 / 2) \<noteq> 0 \<and> (0::int) \<le> 3 \<and>
   metropolis box_density (\<lambda>g::unit. (0, g)) (\<lambda>g. (1 / 4, g)) (1 / 2) 3 ()
     = ([1 / 2, 1 / 2, 1 / 2], [])"
  using metropolis_zero_proposal
    [of "\<lambda>g::unit. (0::real, g)" "\<lambda>g::unit. (1 / 4, g)" box_density "1 / 2" 3 "()"]
  by (simp add: box_density_def eval_nat_numeral)

end
